theory Spec2Isabelle
  imports Main "HOL-Library.Word"
begin

text \<open>
  Two parts of the repository are embedded: \<^verbatim>\<open>SecureListenSocket::accept()\<close>
  (src/lib/net/SecureListenSocket.cpp) and the address selection and change detection of
  \<^verbatim>\<open>NetworkMonitor\<close> (src/lib/gui/core/network/NetworkMonitor.cpp). The definitions of
  both come first, the lemmas and theorems after them.
\<close>

unbundle bit_operations_syntax

section \<open>SecureListenSocket: the accept/upgrade orchestrator\<close>

text \<open>
  \<^verbatim>\<open>SecureListenSocket::accept()\<close> (src/lib/net/SecureListenSocket.cpp) is one
  \<^verbatim>\<open>try\<close> block with two handlers. Everything it calls lives outside the file
  (\<^verbatim>\<open>ARCH\<close>, \<^verbatim>\<open>SecureSocket\<close>, \<^verbatim>\<open>ArgParser\<close>, the base class
  \<^verbatim>\<open>TCPListenSocket\<close>), so the outcome of each call is a parameter of the model:
  a call either returns or raises, and what it raises is \<^verbatim>\<open>XArchNetwork\<close> (the
  class the first handler names), some other \<^verbatim>\<open>std::exception\<close> (which the second
  handler catches), or an object that is no \<^verbatim>\<open>std::exception\<close>, which neither
  handler catches.
  The calls that may raise are the raw accept, the constructor of \<^verbatim>\<open>SecureSocket\<close>,
  \<^verbatim>\<open>initSsl\<close>, \<^verbatim>\<open>loadCertificates\<close> and \<^verbatim>\<open>secureAccept\<close>;
  \<^verbatim>\<open>setListeningJob\<close>, \<^verbatim>\<open>delete\<close>, reading the profile directory and the
  arguments, and the string formatting are taken to return.
\<close>

datatype exn = XArchNetwork | StdException | NotStdException

text \<open>An \<^verbatim>\<open>ArchSocket\<close> is a pointer: \<open>None\<close> is \<^verbatim>\<open>NULL\<close>.\<close>

type_synonym ArchSocket = "nat option"

type_synonym SecurityLevel = nat

text \<open>
  The \<^verbatim>\<open>SecureSocket\<close> object as far as \<^verbatim>\<open>accept()\<close> touches it: the handle
  and security level given to the constructor, the argument of \<^verbatim>\<open>initSsl\<close>, the
  certificate file that was loaded and whether \<^verbatim>\<open>secureAccept\<close> was started.
\<close>

record SecureSocket =
  ss_socket :: ArchSocket
  ss_securityLevel :: SecurityLevel
  ss_initSsl :: "bool option"
  ss_certificates :: "string option"
  ss_secureAccept :: bool

text \<open>
  The collaborators. \<open>m_tlsCertFile\<close> is \<^verbatim>\<open>ArgParser::argsBase().m_tlsCertFile\<close>,
  \<open>kAppId\<close> the constant of \<^verbatim>\<open>common/constants.h\<close>; a \<open>None\<close> outcome of a
  \<^verbatim>\<open>void\<close> call means that it returned.
\<close>

record collaborators =
  acceptSocket :: "exn + ArchSocket"
  newSecureSocket :: "ArchSocket \<Rightarrow> SecurityLevel \<Rightarrow> exn option"
  initSsl :: "bool \<Rightarrow> exn option"
  getProfileDirectory :: string
  kAppId :: string
  m_tlsCertFile :: string
  loadCertificates :: "string \<Rightarrow> exn + bool"
  secureAccept :: "exn option"

text \<open>The calls \<^verbatim>\<open>accept()\<close> makes, in the order it makes them.\<close>

datatype event =
    AcceptSocket
  | NewSecureSocket ArchSocket
  | InitSsl bool
  | SetListeningJob
  | GetProfileDirectory
  | ArgsBase
  | LoadCertificates string
  | SecureAccept
  | DeleteSocket

text \<open>
  The state one call works on: the local \<^verbatim>\<open>socket\<close>, the listener's registration
  with the multiplexer and the calls made so far, each with the registration as it was
  when the call was made.
\<close>

record frame =
  socket :: "SecureSocket option"
  listening :: bool
  trace :: "(event \<times> bool) list"

definition call :: "event \<Rightarrow> frame \<Rightarrow> frame" where
  "call e f = f\<lparr>trace := trace f @ [(e, listening f)]\<rparr>"

text \<open>
  Modelled from the spec: \<^verbatim>\<open>TCPListenSocket::setListeningJob\<close> is not under src/.
  It registers the listening job with the multiplexer, after which the listener is armed.
\<close>

definition setListeningJob :: "frame \<Rightarrow> frame" where
  "setListeningJob f = (call SetListeningJob f)\<lparr>listening := True\<rparr>"

text \<open>\<^verbatim>\<open>delete socket\<close>: the object is destroyed, the pointer keeps its value.\<close>

definition deleteSocket :: "frame \<Rightarrow> frame" where
  "deleteSocket f = call DeleteSocket f"

subsection \<open>Certificate path resolution (lines 60 to 68)\<close>

text \<open>
  \<^verbatim>\<open>%s\<close> prints a C string, which ends at its first NUL; \<^verbatim>\<open>c_str()\<close> of a
  \<^verbatim>\<open>std::string\<close> that holds a NUL is cut there.
\<close>

definition c_str :: "string \<Rightarrow> string" where
  "c_str s = takeWhile (\<lambda>c. c \<noteq> CHR 0x00) s"

definition s_certificateDir :: string where
  "s_certificateDir = ''tls''"

definition s_certificateFileExt :: string where
  "s_certificateFileExt = ''pem''"

text \<open>
  Modelled from the spec: \<^verbatim>\<open>deskflow::string::sprintf\<close> (base/String.h) is not under
  src/. Section 4.3 composes \<^verbatim>\<open>profile_directory / "tls" / "<application-id>.pem"\<close>;
  this is the format \<^verbatim>\<open>"%s/%s/%s.%s"\<close> of line 62 read as \<^verbatim>\<open>printf\<close> reads it,
  each argument a C string.
\<close>

definition sprintf4 :: "string \<Rightarrow> string \<Rightarrow> string \<Rightarrow> string \<Rightarrow> string" where
  "sprintf4 a b c d = c_str a @ ''/'' @ c_str b @ ''/'' @ c_str c @ ''.'' @ c_str d"

definition certificateFilename :: "collaborators \<Rightarrow> string" where
  "certificateFilename c =
     (let certificateFilename =
            sprintf4 (getProfileDirectory c) s_certificateDir (kAppId c) s_certificateFileExt
      in if m_tlsCertFile c \<noteq> [] then m_tlsCertFile c else certificateFilename)"

subsection \<open>The body of the try block (lines 53 to 78)\<close>

text \<open>
  \<open>Inl e\<close>: the body raised \<open>e\<close>; \<open>Inr r\<close>: it returned \<open>r\<close>. The frame is the state at
  that moment. \<^verbatim>\<open>new\<close> never yields \<^verbatim>\<open>NULL\<close>, so \<^verbatim>\<open>socket\<close> is assigned
  exactly when \<^verbatim>\<open>acceptSocket\<close> and the constructor both return.
\<close>

definition load_and_accept :: "collaborators \<Rightarrow> SecureSocket \<Rightarrow> frame \<Rightarrow> (exn + SecureSocket option) \<times> frame" where
  "load_and_accept c s f =
     (let f1 = call GetProfileDirectory f;
          f2 = call ArgsBase f1;
          f3 = (if m_tlsCertFile c \<noteq> [] then call ArgsBase f2 else f2);
          f4 = call (LoadCertificates (certificateFilename c)) f3
      in case loadCertificates c (certificateFilename c) of
           Inl e \<Rightarrow> (Inl e, f4)
         | Inr loaded \<Rightarrow>
             if \<not> loaded then (Inr None, deleteSocket f4)
             else
               (let s1 = s\<lparr>ss_certificates := Some (certificateFilename c)\<rparr>;
                    f5 = call SecureAccept (f4\<lparr>socket := Some s1\<rparr>)
                in case secureAccept c of
                     Some e \<Rightarrow> (Inl e, f5)
                   | None \<Rightarrow>
                       (let s2 = s1\<lparr>ss_secureAccept := True\<rparr>
                        in (Inr (Some s2), f5\<lparr>socket := Some s2\<rparr>))))"

definition accept_try :: "collaborators \<Rightarrow> SecurityLevel \<Rightarrow> frame \<Rightarrow> (exn + SecureSocket option) \<times> frame" where
  "accept_try c lvl f =
     (let f1 = call AcceptSocket f
      in case acceptSocket c of
           Inl e \<Rightarrow> (Inl e, f1)
         | Inr h \<Rightarrow>
             (let f2 = call (NewSecureSocket h) f1
              in case newSecureSocket c h lvl of
                   Some e \<Rightarrow> (Inl e, f2)
                 | None \<Rightarrow>
                     (let s = \<lparr>ss_socket = h, ss_securityLevel = lvl, ss_initSsl = None,
                                ss_certificates = None, ss_secureAccept = False\<rparr>;
                          f3 = call (InitSsl True) (f2\<lparr>socket := Some s\<rparr>)
                      in case initSsl c True of
                           Some e \<Rightarrow> (Inl e, f3)
                         | None \<Rightarrow>
                             (let s1 = s\<lparr>ss_initSsl := Some True\<rparr>;
                                  f4 = f3\<lparr>socket := Some s1\<rparr>;
                                  f5 = (if socket f4 \<noteq> None then setListeningJob f4 else f4)
                              in load_and_accept c s1 f5))))"

subsection \<open>accept(): the try block and its two handlers\<close>

datatype result = Returned "SecureSocket option" | Thrown exn

text \<open>
  Both handlers guard their cleanup with \<^verbatim>\<open>socket != NULL\<close>. The second one ends in
  \<^verbatim>\<open>throw ex\<close>, which raises a \<^verbatim>\<open>std::exception\<close> copied from the one caught.
  What is no \<^verbatim>\<open>std::exception\<close> passes both handlers: it leaves \<^verbatim>\<open>accept()\<close>
  with the state as it was when it was raised.
\<close>

definition cleanup :: "frame \<Rightarrow> frame" where
  "cleanup f = (if socket f \<noteq> None then setListeningJob (deleteSocket f) else f)"

definition handler :: "exn \<Rightarrow> frame \<Rightarrow> result \<times> frame" where
  "handler e f =
     (case e of
        XArchNetwork \<Rightarrow> (Returned None, cleanup f)
      | StdException \<Rightarrow> (Thrown StdException, cleanup f)
      | NotStdException \<Rightarrow> (Thrown NotStdException, f))"

definition accept :: "collaborators \<Rightarrow> SecurityLevel \<Rightarrow> bool \<Rightarrow> result \<times> frame" where
  "accept c lvl armed =
     (case accept_try c lvl \<lparr>socket = None, listening = armed, trace = []\<rparr> of
        (Inr r, f) \<Rightarrow> (Returned r, f)
      | (Inl e, f) \<Rightarrow> handler e f)"

text \<open>What a caller and the multiplexer see of one call.\<close>

definition accepted :: "result \<times> frame \<Rightarrow> result" where
  "accepted r = fst r"

definition armed_after :: "result \<times> frame \<Rightarrow> bool" where
  "armed_after r = listening (snd r)"

definition logged :: "result \<times> frame \<Rightarrow> (event \<times> bool) list" where
  "logged r = trace (snd r)"

definition calls :: "result \<times> frame \<Rightarrow> event list" where
  "calls r = map fst (logged r)"

definition rearms :: "result \<times> frame \<Rightarrow> nat" where
  "rearms r = count_list (calls r) SetListeningJob"

subsection \<open>Vocabulary of the claims\<close>

text \<open>
  The \<^verbatim>\<open>SecureSocket\<close> object exists once the raw accept and the constructor have both
  returned; from then on \<^verbatim>\<open>socket\<close> is not \<^verbatim>\<open>NULL\<close>.
\<close>

definition constructed :: "collaborators \<Rightarrow> SecurityLevel \<Rightarrow> bool" where
  "constructed c lvl =
     (case acceptSocket c of Inl e \<Rightarrow> False | Inr h \<Rightarrow> newSecureSocket c h lvl = None)"

text \<open>The call reaches the certificate work when \<^verbatim>\<open>initSsl\<close> has returned as well.\<close>

definition reaches_certificates :: "collaborators \<Rightarrow> SecurityLevel \<Rightarrow> bool" where
  "reaches_certificates c lvl = (constructed c lvl \<and> initSsl c True = None)"

text \<open>
  What the try block raises, if anything: the exception of the first collaborator call, in
  the order of the source, that does not return.
\<close>

definition raised :: "collaborators \<Rightarrow> SecurityLevel \<Rightarrow> exn option" where
  "raised c lvl =
     (case acceptSocket c of
        Inl e \<Rightarrow> Some e
      | Inr h \<Rightarrow>
          (case newSecureSocket c h lvl of
             Some e \<Rightarrow> Some e
           | None \<Rightarrow>
               (case initSsl c True of
                  Some e \<Rightarrow> Some e
                | None \<Rightarrow>
                    (case loadCertificates c (certificateFilename c) of
                       Inl e \<Rightarrow> Some e
                     | Inr loaded \<Rightarrow> if loaded then secureAccept c else None))))"

text \<open>What becomes of an exception, and the calls of the handler that catches it.\<close>

definition outcome :: "exn \<Rightarrow> result" where
  "outcome e =
     (case e of
        XArchNetwork \<Rightarrow> Returned None
      | StdException \<Rightarrow> Thrown StdException
      | NotStdException \<Rightarrow> Thrown NotStdException)"

definition handler_calls :: "exn \<Rightarrow> event list" where
  "handler_calls e = (if e = NotStdException then [] else [DeleteSocket, SetListeningJob])"

text \<open>The calls of lines 61 to 70, up to and including \<^verbatim>\<open>loadCertificates\<close>.\<close>

definition resolve_calls :: "collaborators \<Rightarrow> event list" where
  "resolve_calls c =
     [GetProfileDirectory, ArgsBase] @ (if m_tlsCertFile c \<noteq> [] then [ArgsBase] else []) @
     [LoadCertificates (certificateFilename c)]"

text \<open>The certificate files a call tried to load, in order.\<close>

fun loaded_paths :: "event list \<Rightarrow> string list" where
  "loaded_paths [] = []"
| "loaded_paths (LoadCertificates p # es) = p # loaded_paths es"
| "loaded_paths (e # es) = loaded_paths es"

text \<open>
  Certificate resolution (profile directory, command-line arguments), certificate loading
  and the start of the handshake.
\<close>

fun certificate_or_handshake_work :: "event \<Rightarrow> bool" where
  "certificate_or_handshake_work GetProfileDirectory = True"
| "certificate_or_handshake_work ArgsBase = True"
| "certificate_or_handshake_work (LoadCertificates p) = True"
| "certificate_or_handshake_work SecureAccept = True"
| "certificate_or_handshake_work e = False"

text \<open>The calls of that kind a call to \<^verbatim>\<open>accept()\<close> made, each with the registration
  as it was at that moment.\<close>

definition work_calls :: "result \<times> frame \<Rightarrow> (event \<times> bool) list" where
  "work_calls r = filter (\<lambda>x. certificate_or_handshake_work (fst x)) (logged r)"

subsection \<open>A concrete installation\<close>

text \<open>
  Profile directory \<^verbatim>\<open>/home/u/.config/app\<close>, application id \<^verbatim>\<open>deskflow\<close>, no
  override; the only certificate bundle on disk is the one at the default path, and every
  collaborator returns.
\<close>

definition home_setup :: collaborators where
  "home_setup =
     \<lparr>acceptSocket = Inr (Some 7),
      newSecureSocket = (\<lambda>h lvl. None),
      initSsl = (\<lambda>server. None),
      getProfileDirectory = ''/home/u/.config/app'',
      kAppId = ''deskflow'',
      m_tlsCertFile = [],
      loadCertificates = (\<lambda>p. Inr (p = ''/home/u/.config/app/tls/deskflow.pem'')),
      secureAccept = None\<rparr>"

text \<open>The raw accept fails with a network-layer error, or with some other exception.\<close>

definition network_down :: collaborators where
  "network_down = home_setup\<lparr>acceptSocket := Inl XArchNetwork\<rparr>"

definition accept_breaks :: collaborators where
  "accept_breaks = home_setup\<lparr>acceptSocket := Inl StdException\<rparr>"

text \<open>The override names a file that is not there; the default bundle still is.\<close>

definition override_missing :: collaborators where
  "override_missing = home_setup\<lparr>m_tlsCertFile := ''X''\<rparr>"

text \<open>No bundle at the default path.\<close>

definition bundle_missing :: collaborators where
  "bundle_missing = home_setup\<lparr>loadCertificates := (\<lambda>p. Inr False)\<rparr>"

text \<open>The handshake start raises an exception outside the network-layer class.\<close>

definition handshake_breaks :: collaborators where
  "handshake_breaks = home_setup\<lparr>secureAccept := Some StdException\<rparr>"

text \<open>\<^verbatim>\<open>initSsl\<close> raises a network-layer error.\<close>

definition ssl_init_fails :: collaborators where
  "ssl_init_fails = home_setup\<lparr>initSsl := (\<lambda>server. Some XArchNetwork)\<rparr>"

text \<open>The raw accept returns a \<^verbatim>\<open>NULL\<close> handle.\<close>

definition null_handle :: collaborators where
  "null_handle = home_setup\<lparr>acceptSocket := Inr None\<rparr>"

section \<open>NetworkMonitor: available addresses, suggestion, change detection\<close>

subsection \<open>The Qt types the monitor works on\<close>

datatype NetworkLayerProtocol =
  IPv4Protocol | IPv6Protocol | AnyIPProtocol | UnknownNetworkLayerProtocol

text \<open>
  A \<^verbatim>\<open>QHostAddress\<close> is null (default constructed), an IPv4 address (a
  \<^verbatim>\<open>quint32\<close>), an IPv6 address or the any-address. Its \<^verbatim>\<open>operator==\<close> compares
  protocol and address bits, which is the equality of this datatype.
\<close>

datatype QHostAddress = Null | IPv4 "32 word" | IPv6 "128 word" | AnyIP

fun protocol :: "QHostAddress \<Rightarrow> NetworkLayerProtocol" where
  "protocol Null = UnknownNetworkLayerProtocol"
| "protocol (IPv4 a) = IPv4Protocol"
| "protocol (IPv6 a) = IPv6Protocol"
| "protocol AnyIP = AnyIPProtocol"

definition isNull :: "QHostAddress \<Rightarrow> bool" where
  "isNull a = (protocol a = UnknownNetworkLayerProtocol)"

text \<open>\<^verbatim>\<open>QHostAddress(QHostAddress::LocalHost)\<close> is 127.0.0.1.\<close>

definition LocalHost :: QHostAddress where
  "LocalHost = IPv4 0x7F000001"

text \<open>
  \<^verbatim>\<open>isInSubnet(subnet, netmask)\<close>: false when the protocols differ, otherwise the
  leading \<open>netmask\<close> bits agree.
\<close>

fun isInSubnet :: "QHostAddress \<Rightarrow> QHostAddress \<times> nat \<Rightarrow> bool" where
  "isInSubnet (IPv4 a) (IPv4 n, m) = (m \<le> 32 \<and> drop_bit (32 - m) a = drop_bit (32 - m) n)"
| "isInSubnet (IPv6 a) (IPv6 n, m) = (m \<le> 128 \<and> drop_bit (128 - m) a = drop_bit (128 - m) n)"
| "isInSubnet a s = False"

text \<open>
  \<^verbatim>\<open>QHostAddress::parseSubnet("169.254.0.0/16")\<close> and
  \<^verbatim>\<open>QHostAddress::parseSubnet("192.168/16")\<close>: the pairs of 169.254.0.0 and of
  192.168.0.0 with a prefix length of 16.
\<close>

definition subnet_169_254 :: "QHostAddress \<times> nat" where
  "subnet_169_254 = (IPv4 0xA9FE0000, 16)"

definition subnet_192_168 :: "QHostAddress \<times> nat" where
  "subnet_192_168 = (IPv4 0xC0A80000, 16)"

text \<open>\<^verbatim>\<open>QNetworkInterface::InterfaceFlags\<close>, with the values Qt gives the three flags.\<close>

type_synonym InterfaceFlags = "32 word"

definition IsUp :: InterfaceFlags where
  "IsUp = 0x1"

definition IsRunning :: InterfaceFlags where
  "IsRunning = 0x2"

definition IsLoopBack :: InterfaceFlags where
  "IsLoopBack = 0x8"

text \<open>
  An interface as the monitor reads it; \<open>addressEntries\<close> holds the \<^verbatim>\<open>ip()\<close> of each
  entry. The network environment is the list \<^verbatim>\<open>QNetworkInterface::allInterfaces()\<close>.
\<close>

record QNetworkInterface =
  name :: string
  humanReadableName :: string
  flags :: InterfaceFlags
  addressEntries :: "QHostAddress list"

text \<open>
  \<^verbatim>\<open>QNetworkInterface::allAddresses()\<close> is a static member function of Qt. Called as
  \<^verbatim>\<open>interface.allAddresses()\<close> it still answers for the whole host: the addresses of
  the entries of every interface that is up, whichever \<^verbatim>\<open>interface\<close> it is called on.
\<close>

definition allAddresses :: "QNetworkInterface list \<Rightarrow> QHostAddress list" where
  "allAddresses net = concat (map addressEntries (filter (\<lambda>p. \<not> (flags p AND IsUp = 0)) net))"

subsection \<open>The monitor\<close>

record NetworkMonitor =
  m_lastAddresses :: "QHostAddress list"
  m_lastActiveInterfaces :: "string list"
  m_lastNetworkInterfaces :: "QNetworkInterface list"
  m_selectedIPAddress :: QHostAddress
  m_isMonitoring :: bool

text \<open>The test both interface loops make (lines 61 to 63 and 232 to 234).\<close>

definition active :: "QNetworkInterface \<Rightarrow> bool" where
  "active interface =
     (flags interface AND IsUp \<noteq> 0 \<and> flags interface AND IsRunning \<noteq> 0 \<and>
      \<not> (flags interface AND IsLoopBack \<noteq> 0))"

text \<open>The test on an address (lines 66 to 68).\<close>

definition available :: "QHostAddress \<Rightarrow> bool" where
  "available address =
     (protocol address = IPv4Protocol \<and> address \<noteq> LocalHost \<and>
      \<not> isInSubnet address subnet_169_254)"

text \<open>\<^verbatim>\<open>getAvailableIPv4Addresses\<close>: the inner loop, the outer loop, the function.\<close>

fun append_available :: "QHostAddress list \<Rightarrow> QHostAddress list \<Rightarrow> QHostAddress list" where
  "append_available addresses [] = addresses"
| "append_available addresses (address # rest) =
     append_available (if available address then addresses @ [address] else addresses) rest"

fun scan_interfaces ::
  "QNetworkInterface list \<Rightarrow> QHostAddress list \<Rightarrow> QNetworkInterface list \<Rightarrow> QHostAddress list" where
  "scan_interfaces net addresses [] = addresses"
| "scan_interfaces net addresses (interface # rest) =
     scan_interfaces net
       (if active interface then append_available addresses (allAddresses net) else addresses)
       rest"

definition getAvailableIPv4Addresses :: "QNetworkInterface list \<Rightarrow> QHostAddress list" where
  "getAvailableIPv4Addresses net = scan_interfaces net [] net"

text \<open>\<^verbatim>\<open>getActiveNetworkInterfaces\<close>\<close>

fun append_active ::
  "QNetworkInterface list \<Rightarrow> QNetworkInterface list \<Rightarrow> QNetworkInterface list" where
  "append_active interfaces [] = interfaces"
| "append_active interfaces (interface # rest) =
     append_active (if active interface then interfaces @ [interface] else interfaces) rest"

definition getActiveNetworkInterfaces :: "QNetworkInterface list \<Rightarrow> QNetworkInterface list" where
  "getActiveNetworkInterfaces net = append_active [] net"

text \<open>
  \<^verbatim>\<open>getSuggestedIPv4Address\<close>: the loop over the available addresses that looks for
  the selected one (lines 83 to 87), the loop that looks for an address of 192.168/16
  (lines 94 to 98), and the function, which repeats its last two steps (lines 105 to 115).
  The environment is one snapshot: both reads of the available addresses in a call see
  the same interfaces.
\<close>

fun find_address :: "QHostAddress \<Rightarrow> QHostAddress list \<Rightarrow> QHostAddress option" where
  "find_address wanted [] = None"
| "find_address wanted (address # rest) =
     (if address = wanted then Some address else find_address wanted rest)"

fun first_in_192_168 :: "QHostAddress list \<Rightarrow> QHostAddress option" where
  "first_in_192_168 [] = None"
| "first_in_192_168 (address # rest) =
     (if isInSubnet address subnet_192_168 then Some address else first_in_192_168 rest)"

definition default_suggestion :: "QHostAddress list \<Rightarrow> QHostAddress" where
  "default_suggestion addresses =
     (case first_in_192_168 addresses of
        Some address \<Rightarrow> address
      | None \<Rightarrow>
          (case addresses of
             first # rest \<Rightarrow> first
           | [] \<Rightarrow>
               (case first_in_192_168 addresses of
                  Some address \<Rightarrow> address
                | None \<Rightarrow> (case addresses of first # rest \<Rightarrow> first | [] \<Rightarrow> Null))))"

definition getSuggestedIPv4Address :: "NetworkMonitor \<Rightarrow> QNetworkInterface list \<Rightarrow> QHostAddress" where
  "getSuggestedIPv4Address m net =
     (case (if \<not> isNull (m_selectedIPAddress m)
            then find_address (m_selectedIPAddress m) (getAvailableIPv4Addresses net)
            else None) of
        Some address \<Rightarrow> address
      | None \<Rightarrow> default_suggestion (getAvailableIPv4Addresses net))"

text \<open>
  \<^verbatim>\<open>updateNetworkState\<close>: its three flags with their loops, then the function. It
  returns the flag and the monitor as it leaves it.
\<close>

fun some_not_contained :: "QHostAddress list \<Rightarrow> QHostAddress list \<Rightarrow> bool" where
  "some_not_contained lastAddresses [] = False"
| "some_not_contained lastAddresses (address # rest) =
     (if address \<notin> set lastAddresses then True else some_not_contained lastAddresses rest)"

fun name_found :: "string \<Rightarrow> QNetworkInterface list \<Rightarrow> bool" where
  "name_found n [] = False"
| "name_found n (lastInterface # rest) =
     (if n = name lastInterface then True else name_found n rest)"

fun some_name_missing :: "QNetworkInterface list \<Rightarrow> QNetworkInterface list \<Rightarrow> bool" where
  "some_name_missing lastInterfaces [] = False"
| "some_name_missing lastInterfaces (interface # rest) =
     (if \<not> name_found (name interface) lastInterfaces then True
      else some_name_missing lastInterfaces rest)"

fun address_found :: "QHostAddress \<Rightarrow> QHostAddress list \<Rightarrow> bool" where
  "address_found wanted [] = False"
| "address_found wanted (address # rest) =
     (if address = wanted then True else address_found wanted rest)"

definition addressesChanged :: "NetworkMonitor \<Rightarrow> QHostAddress list \<Rightarrow> bool" where
  "addressesChanged m currentAddresses =
     (if length currentAddresses \<noteq> length (m_lastAddresses m) then True
      else some_not_contained (m_lastAddresses m) currentAddresses)"

definition interfacesChanged :: "NetworkMonitor \<Rightarrow> QNetworkInterface list \<Rightarrow> bool" where
  "interfacesChanged m currentInterfaces =
     (if length currentInterfaces \<noteq> length (m_lastNetworkInterfaces m) then True
      else some_name_missing (m_lastNetworkInterfaces m) currentInterfaces)"

definition selectedIPChanged :: "NetworkMonitor \<Rightarrow> QHostAddress list \<Rightarrow> bool" where
  "selectedIPChanged m currentAddresses =
     (if \<not> isNull (m_selectedIPAddress m)
      then \<not> address_found (m_selectedIPAddress m) currentAddresses
      else False)"

definition updateNetworkState :: "NetworkMonitor \<Rightarrow> QNetworkInterface list \<Rightarrow> bool \<times> NetworkMonitor" where
  "updateNetworkState m net =
     (let currentAddresses = getAvailableIPv4Addresses net;
          currentInterfaces = getActiveNetworkInterfaces net
      in if addressesChanged m currentAddresses \<or> interfacesChanged m currentInterfaces \<or>
            selectedIPChanged m currentAddresses
         then (True, m\<lparr>m_lastAddresses := currentAddresses,
                       m_lastActiveInterfaces := map humanReadableName currentInterfaces,
                       m_lastNetworkInterfaces := currentInterfaces\<rparr>)
         else (False, m))"

subsection \<open>Vocabulary of the claims\<close>

text \<open>
  The suggestion as the claim words it: the selected address when it is set and
  available; otherwise the first available address of 192.168/16, else the first
  available address, else the null address.
\<close>

definition suggestion :: "QHostAddress \<Rightarrow> QHostAddress list \<Rightarrow> QHostAddress" where
  "suggestion selected addresses =
     (if selected \<noteq> Null \<and> selected \<in> set addresses then selected
      else (case filter (\<lambda>a. isInSubnet a subnet_192_168) addresses of
              a # rest \<Rightarrow> a
            | [] \<Rightarrow> (case addresses of a # rest \<Rightarrow> a | [] \<Rightarrow> Null)))"

text \<open>The interfaces of the environment that carry an address.\<close>

definition interfaces_with :: "QHostAddress \<Rightarrow> QNetworkInterface list \<Rightarrow> QNetworkInterface list" where
  "interfaces_with a net = filter (\<lambda>i. a \<in> set (addressEntries i)) net"

subsection \<open>A concrete host\<close>

text \<open>
  \<open>lo\<close>: up, running, loopback, 127.0.0.1. \<open>eth0\<close>: up and running, 192.168.1.5.
  \<open>wlan0\<close>: up and running, 10.0.0.7. \<open>docker0\<close>: a bridge with no container attached,
  up but not running, 172.17.0.1.
\<close>

definition lo :: QNetworkInterface where
  "lo = \<lparr>name = ''lo'', humanReadableName = ''lo'', flags = 0xB,
          addressEntries = [IPv4 0x7F000001]\<rparr>"

definition eth0 :: QNetworkInterface where
  "eth0 = \<lparr>name = ''eth0'', humanReadableName = ''eth0'', flags = 0x27,
            addressEntries = [IPv4 0xC0A80105]\<rparr>"

definition wlan0 :: QNetworkInterface where
  "wlan0 = \<lparr>name = ''wlan0'', humanReadableName = ''wlan0'', flags = 0x27,
             addressEntries = [IPv4 0x0A000007]\<rparr>"

definition docker0 :: QNetworkInterface where
  "docker0 = \<lparr>name = ''docker0'', humanReadableName = ''docker0'', flags = 0x25,
               addressEntries = [IPv4 0xAC110001]\<rparr>"

text \<open>A monitor as its constructor leaves it, and one whose user selected 10.0.0.1.\<close>

definition fresh_monitor :: NetworkMonitor where
  "fresh_monitor =
     \<lparr>m_lastAddresses = [], m_lastActiveInterfaces = [], m_lastNetworkInterfaces = [],
      m_selectedIPAddress = Null, m_isMonitoring = False\<rparr>"

definition monitor_selected_10_0_0_1 :: NetworkMonitor where
  "monitor_selected_10_0_0_1 = fresh_monitor\<lparr>m_selectedIPAddress := IPv4 0x0A000001\<rparr>"

section \<open>Properties of SecureListenSocket::accept\<close>

subsection \<open>The seven ways through accept()\<close>

lemmas step_defs = Let_def cleanup_def setListeningJob_def deleteSocket_def call_def handler_def

lemmas view_defs = accepted_def armed_after_def calls_def logged_def

lemma outcome_simps:
  "outcome XArchNetwork = Returned None"
  "outcome StdException = Thrown StdException"
  "outcome NotStdException = Thrown NotStdException"
  "(outcome e = Thrown x) = (e = x \<and> x \<noteq> XArchNetwork)"
  "(outcome e = Returned None) = (e = XArchNetwork)"
  by (cases e; cases x; simp add: outcome_def)+

lemma accept_raw_raises:
  assumes "acceptSocket c = Inl e"
  shows "accept c lvl a =
    (outcome e, \<lparr>socket = None, listening = a, trace = [(AcceptSocket, a)]\<rparr>)"
  using assms by (cases e) (simp_all add: accept_def accept_try_def step_defs outcome_def)

lemma accept_ctor_raises:
  assumes "acceptSocket c = Inr h" and "newSecureSocket c h lvl = Some e"
  shows "accept c lvl a =
    (outcome e,
     \<lparr>socket = None, listening = a, trace = [(AcceptSocket, a), (NewSecureSocket h, a)]\<rparr>)"
  using assms by (cases e) (simp_all add: accept_def accept_try_def step_defs outcome_def)

lemma accept_initSsl_raises:
  assumes "acceptSocket c = Inr h" and "newSecureSocket c h lvl = None"
    and "initSsl c True = Some e"
  shows "accepted (accept c lvl a) = outcome e"
    and "armed_after (accept c lvl a) = (a \<or> e \<noteq> NotStdException)"
    and "calls (accept c lvl a) =
      [AcceptSocket, NewSecureSocket h, InitSsl True] @ handler_calls e"
  using assms
  by (cases e; simp add: accept_def accept_try_def step_defs outcome_def handler_calls_def
      view_defs)+

lemma accept_load_raises:
  assumes "acceptSocket c = Inr h" and "newSecureSocket c h lvl = None"
    and "initSsl c True = None" and "loadCertificates c (certificateFilename c) = Inl e"
  shows "accepted (accept c lvl a) = outcome e"
    and "armed_after (accept c lvl a)"
    and "logged (accept c lvl a) =
      map (\<lambda>x. (x, a)) [AcceptSocket, NewSecureSocket h, InitSsl True, SetListeningJob] @
      map (\<lambda>x. (x, True)) (resolve_calls c @ handler_calls e)"
    and "calls (accept c lvl a) =
      [AcceptSocket, NewSecureSocket h, InitSsl True, SetListeningJob] @
      resolve_calls c @ handler_calls e"
  using assms
  by (cases e; simp add: accept_def accept_try_def load_and_accept_def resolve_calls_def
      step_defs outcome_def handler_calls_def view_defs)+

lemma accept_load_fails:
  assumes "acceptSocket c = Inr h" and "newSecureSocket c h lvl = None"
    and "initSsl c True = None" and "loadCertificates c (certificateFilename c) = Inr False"
  shows "accepted (accept c lvl a) = Returned None"
    and "armed_after (accept c lvl a)"
    and "logged (accept c lvl a) =
      map (\<lambda>x. (x, a)) [AcceptSocket, NewSecureSocket h, InitSsl True, SetListeningJob] @
      map (\<lambda>x. (x, True)) (resolve_calls c @ [DeleteSocket])"
    and "calls (accept c lvl a) =
      [AcceptSocket, NewSecureSocket h, InitSsl True, SetListeningJob] @
      resolve_calls c @ [DeleteSocket]"
  using assms
  by (simp_all add: accept_def accept_try_def load_and_accept_def resolve_calls_def
      step_defs view_defs)

lemma accept_secureAccept_raises:
  assumes "acceptSocket c = Inr h" and "newSecureSocket c h lvl = None"
    and "initSsl c True = None" and "loadCertificates c (certificateFilename c) = Inr True"
    and "secureAccept c = Some e"
  shows "accepted (accept c lvl a) = outcome e"
    and "armed_after (accept c lvl a)"
    and "logged (accept c lvl a) =
      map (\<lambda>x. (x, a)) [AcceptSocket, NewSecureSocket h, InitSsl True, SetListeningJob] @
      map (\<lambda>x. (x, True)) (resolve_calls c @ SecureAccept # handler_calls e)"
    and "calls (accept c lvl a) =
      [AcceptSocket, NewSecureSocket h, InitSsl True, SetListeningJob] @
      resolve_calls c @ SecureAccept # handler_calls e"
  using assms
  by (cases e; simp add: accept_def accept_try_def load_and_accept_def resolve_calls_def
      step_defs outcome_def handler_calls_def view_defs)+

lemma accept_succeeds:
  assumes "acceptSocket c = Inr h" and "newSecureSocket c h lvl = None"
    and "initSsl c True = None" and "loadCertificates c (certificateFilename c) = Inr True"
    and "secureAccept c = None"
  shows "accepted (accept c lvl a) =
      Returned (Some \<lparr>ss_socket = h, ss_securityLevel = lvl, ss_initSsl = Some True,
        ss_certificates = Some (certificateFilename c), ss_secureAccept = True\<rparr>)"
    and "armed_after (accept c lvl a)"
    and "logged (accept c lvl a) =
      map (\<lambda>x. (x, a)) [AcceptSocket, NewSecureSocket h, InitSsl True, SetListeningJob] @
      map (\<lambda>x. (x, True)) (resolve_calls c @ [SecureAccept])"
    and "calls (accept c lvl a) =
      [AcceptSocket, NewSecureSocket h, InitSsl True, SetListeningJob] @
      resolve_calls c @ [SecureAccept]"
  using assms
  by (simp_all add: accept_def accept_try_def load_and_accept_def resolve_calls_def
      step_defs view_defs)

text \<open>
  Once \<^verbatim>\<open>initSsl\<close> has returned, the call starts with the accept, the construction,
  \<^verbatim>\<open>initSsl\<close> and the re-arm of line 57, goes on with the resolution and the load, and
  ends in one of four ways.
\<close>

lemma accept_after_initSsl:
  assumes "acceptSocket c = Inr h" and "newSecureSocket c h lvl = None"
    and "initSsl c True = None"
  obtains rest where
    "logged (accept c lvl a) =
      map (\<lambda>x. (x, a)) [AcceptSocket, NewSecureSocket h, InitSsl True, SetListeningJob] @
      map (\<lambda>x. (x, True)) (resolve_calls c @ rest)"
    and "armed_after (accept c lvl a)"
proof (cases "loadCertificates c (certificateFilename c)")
  case (Inl e)
  from accept_load_raises(2,3) [OF assms Inl] show ?thesis
    using that by blast
next
  case (Inr loaded)
  note ld = this
  show ?thesis
  proof (cases loaded)
    case False
    with ld have "loadCertificates c (certificateFilename c) = Inr False"
      by simp
    from accept_load_fails(2,3) [OF assms this] show ?thesis
      using that by blast
  next
    case True
    with ld have t: "loadCertificates c (certificateFilename c) = Inr True"
      by simp
    show ?thesis
    proof (cases "secureAccept c")
      case None
      from accept_succeeds(2,3) [OF assms t None] show ?thesis
        using that by blast
    next
      case (Some e)
      from accept_secureAccept_raises(2,3) [OF assms t Some] show ?thesis
        using that by blast
    qed
  qed
qed

lemma accept_paths
  [case_names raw ctor init load_raises load_fails handshake_raises success]:
  obtains e where "acceptSocket c = Inl e"
  | h e where "acceptSocket c = Inr h" "newSecureSocket c h lvl = Some e"
  | h e where "acceptSocket c = Inr h" "newSecureSocket c h lvl = None"
      "initSsl c True = Some e"
  | h e where "acceptSocket c = Inr h" "newSecureSocket c h lvl = None"
      "initSsl c True = None" "loadCertificates c (certificateFilename c) = Inl e"
  | h where "acceptSocket c = Inr h" "newSecureSocket c h lvl = None"
      "initSsl c True = None" "loadCertificates c (certificateFilename c) = Inr False"
  | h e where "acceptSocket c = Inr h" "newSecureSocket c h lvl = None"
      "initSsl c True = None" "loadCertificates c (certificateFilename c) = Inr True"
      "secureAccept c = Some e"
  | h where "acceptSocket c = Inr h" "newSecureSocket c h lvl = None"
      "initSsl c True = None" "loadCertificates c (certificateFilename c) = Inr True"
      "secureAccept c = None"
proof (cases "acceptSocket c")
  case (Inl e)
  then show ?thesis using that(1) by simp
next
  case (Inr h)
  note acc = this
  show ?thesis
  proof (cases "newSecureSocket c h lvl")
    case (Some e)
    with acc show ?thesis using that(2) by simp
  next
    case None
    note ctor = this
    show ?thesis
    proof (cases "initSsl c True")
      case (Some e)
      with acc ctor show ?thesis using that(3) by simp
    next
      case None
      note ini = this
      show ?thesis
      proof (cases "loadCertificates c (certificateFilename c)")
        case (Inl e)
        with acc ctor ini show ?thesis using that(4) by simp
      next
        case (Inr loaded)
        note ld = this
        show ?thesis
        proof (cases loaded)
          case False
          with acc ctor ini ld show ?thesis using that(5) by simp
        next
          case True
          note t = this
          show ?thesis
          proof (cases "secureAccept c")
            case None
            with acc ctor ini ld t show ?thesis using that(7) by simp
          next
            case (Some e)
            with acc ctor ini ld t show ?thesis using that(6) by simp
          qed
        qed
      qed
    qed
  qed
qed

subsection \<open>Lists of calls\<close>

lemma rearms_count [simp]: "rearms r = count_list (calls r) SetListeningJob"
  by (simp add: rearms_def)

lemma calls_of_logged:
  "logged r = map (\<lambda>x. (x, a)) xs @ map (\<lambda>x. (x, b)) ys \<Longrightarrow> calls r = xs @ ys"
  by (simp add: calls_def comp_def)

lemma calls_raw [simp]:
  "calls (x, \<lparr>socket = s, listening = a, trace = t\<rparr>) = map fst t"
  by (simp add: calls_def logged_def)

lemma work_calls_of_logged:
  assumes "logged r = map (\<lambda>x. (x, a)) xs @ map (\<lambda>x. (x, b)) ys"
  shows "work_calls r =
    map (\<lambda>x. (x, a)) (filter certificate_or_handshake_work xs) @
    map (\<lambda>x. (x, b)) (filter certificate_or_handshake_work ys)"
  using assms by (simp add: work_calls_def filter_map comp_def)

lemma work_calls_of_calls:
  "map fst (work_calls r) = filter certificate_or_handshake_work (calls r)"
  by (simp add: work_calls_def calls_def filter_map comp_def)

lemma no_work_calls:
  assumes "filter certificate_or_handshake_work (calls r) = []"
  shows "work_calls r = []"
  using assms work_calls_of_calls [of r] by simp

lemma handler_calls_simps [simp]:
  "handler_calls XArchNetwork = [DeleteSocket, SetListeningJob]"
  "handler_calls StdException = [DeleteSocket, SetListeningJob]"
  "handler_calls NotStdException = []"
  "filter certificate_or_handshake_work (handler_calls e) = []"
  "loaded_paths (handler_calls e) = []"
  by (simp_all add: handler_calls_def)

lemma resolve_calls_work [simp]:
  "filter certificate_or_handshake_work (resolve_calls c) = resolve_calls c"
  "resolve_calls c \<noteq> []"
  "hd (resolve_calls c) = GetProfileDirectory"
  by (simp_all add: resolve_calls_def)

lemma count_resolve_calls [simp]:
  "count_list (resolve_calls c) SetListeningJob = 0"
  "count_list (resolve_calls c) DeleteSocket = 0"
  by (simp_all add: resolve_calls_def)

lemma set_resolve_calls:
  "SetListeningJob \<notin> set (resolve_calls c)" "DeleteSocket \<notin> set (resolve_calls c)"
  "SecureAccept \<notin> set (resolve_calls c)"
  by (simp_all add: resolve_calls_def)

lemma loaded_paths_resolve_calls [simp]:
  "loaded_paths (resolve_calls c @ es) = certificateFilename c # loaded_paths es"
  by (simp add: resolve_calls_def)

lemma before_the_work:
  assumes eq: "pre4 @ rest = pre @ e # post" and e: "e \<notin> set pre4" and x: "x \<in> set pre4"
  shows "x \<in> set pre"
proof -
  from eq obtain us where
    "(pre4 = pre @ us \<and> us @ rest = e # post) \<or> (pre4 @ us = pre \<and> rest = us @ e # post)"
    by (auto simp: append_eq_append_conv2)
  then show ?thesis
  proof
    assume a: "pre4 = pre @ us \<and> us @ rest = e # post"
    show ?thesis
    proof (cases us)
      case Nil
      with a x show ?thesis by simp
    next
      case (Cons u us')
      with a have "e \<in> set pre4" by simp
      with e show ?thesis by simp
    qed
  next
    assume "pre4 @ us = pre \<and> rest = us @ e # post"
    with x show ?thesis by auto
  qed
qed

subsection \<open>The concrete installation, evaluated\<close>

lemma home_setup_fields [simp]:
  "acceptSocket home_setup = Inr (Some 7)"
  "newSecureSocket home_setup h lvl = None"
  "initSsl home_setup server = None"
  "getProfileDirectory home_setup = ''/home/u/.config/app''"
  "kAppId home_setup = ''deskflow''"
  "m_tlsCertFile home_setup = []"
  "loadCertificates home_setup p = Inr (p = ''/home/u/.config/app/tls/deskflow.pem'')"
  "secureAccept home_setup = None"
  by (simp_all add: home_setup_def)

lemma certificateFilename_home_setup [simp]:
  "certificateFilename home_setup = ''/home/u/.config/app/tls/deskflow.pem''"
  by (simp add: certificateFilename_def sprintf4_def c_str_def s_certificateDir_def
      s_certificateFileExt_def)

lemma certificateFilename_variants [simp]:
  "certificateFilename network_down = ''/home/u/.config/app/tls/deskflow.pem''"
  "certificateFilename accept_breaks = ''/home/u/.config/app/tls/deskflow.pem''"
  "certificateFilename bundle_missing = ''/home/u/.config/app/tls/deskflow.pem''"
  "certificateFilename handshake_breaks = ''/home/u/.config/app/tls/deskflow.pem''"
  "certificateFilename ssl_init_fails = ''/home/u/.config/app/tls/deskflow.pem''"
  "certificateFilename null_handle = ''/home/u/.config/app/tls/deskflow.pem''"
  "certificateFilename override_missing = ''X''"
  using certificateFilename_home_setup
  by (simp_all add: certificateFilename_def network_down_def accept_breaks_def
      bundle_missing_def handshake_breaks_def ssl_init_fails_def null_handle_def
      override_missing_def)

lemma variant_fields [simp]:
  "acceptSocket network_down = Inl XArchNetwork"
  "acceptSocket accept_breaks = Inl StdException"
  "acceptSocket override_missing = Inr (Some 7)"
  "newSecureSocket override_missing h lvl = None"
  "initSsl override_missing server = None"
  "m_tlsCertFile override_missing = ''X''"
  "loadCertificates override_missing p = Inr (p = ''/home/u/.config/app/tls/deskflow.pem'')"
  "acceptSocket bundle_missing = Inr (Some 7)"
  "newSecureSocket bundle_missing h lvl = None"
  "initSsl bundle_missing server = None"
  "loadCertificates bundle_missing p = Inr False"
  "acceptSocket handshake_breaks = Inr (Some 7)"
  "newSecureSocket handshake_breaks h lvl = None"
  "initSsl handshake_breaks server = None"
  "m_tlsCertFile handshake_breaks = []"
  "loadCertificates handshake_breaks p = Inr (p = ''/home/u/.config/app/tls/deskflow.pem'')"
  "secureAccept handshake_breaks = Some StdException"
  "acceptSocket ssl_init_fails = Inr (Some 7)"
  "newSecureSocket ssl_init_fails h lvl = None"
  "initSsl ssl_init_fails server = Some XArchNetwork"
  "acceptSocket null_handle = Inr None"
  "newSecureSocket null_handle h lvl = None"
  "initSsl null_handle server = None"
  "m_tlsCertFile null_handle = []"
  "loadCertificates null_handle p = Inr (p = ''/home/u/.config/app/tls/deskflow.pem'')"
  "secureAccept null_handle = None"
  by (simp_all add: network_down_def accept_breaks_def override_missing_def bundle_missing_def
      handshake_breaks_def ssl_init_fails_def null_handle_def)

lemma accept_home_setup:
  "accepted (accept home_setup lvl a) =
     Returned (Some \<lparr>ss_socket = Some 7, ss_securityLevel = lvl, ss_initSsl = Some True,
       ss_certificates = Some ''/home/u/.config/app/tls/deskflow.pem'',
       ss_secureAccept = True\<rparr>)"
  "logged (accept home_setup lvl a) =
     [(AcceptSocket, a), (NewSecureSocket (Some 7), a), (InitSsl True, a), (SetListeningJob, a),
      (GetProfileDirectory, True), (ArgsBase, True),
      (LoadCertificates ''/home/u/.config/app/tls/deskflow.pem'', True), (SecureAccept, True)]"
  using accept_succeeds(1,3) [of home_setup "Some 7" lvl a]
  by (simp_all add: resolve_calls_def)

lemma accept_network_down:
  "accept network_down lvl a =
     (Returned None, \<lparr>socket = None, listening = a, trace = [(AcceptSocket, a)]\<rparr>)"
  using accept_raw_raises [of network_down XArchNetwork lvl a] by (simp add: outcome_simps)

lemma accept_accept_breaks:
  "accept accept_breaks lvl a =
     (Thrown StdException, \<lparr>socket = None, listening = a, trace = [(AcceptSocket, a)]\<rparr>)"
  using accept_raw_raises [of accept_breaks StdException lvl a] by (simp add: outcome_simps)

lemma accept_ssl_init_fails:
  "accepted (accept ssl_init_fails lvl a) = Returned None"
  "armed_after (accept ssl_init_fails lvl a)"
  "calls (accept ssl_init_fails lvl a) =
     [AcceptSocket, NewSecureSocket (Some 7), InitSsl True, DeleteSocket, SetListeningJob]"
  using accept_initSsl_raises [of ssl_init_fails "Some 7" lvl XArchNetwork a]
  by (simp_all add: outcome_simps)

lemma accept_handshake_breaks:
  "accepted (accept handshake_breaks lvl a) = Thrown StdException"
  "armed_after (accept handshake_breaks lvl a)"
  "calls (accept handshake_breaks lvl a) =
     [AcceptSocket, NewSecureSocket (Some 7), InitSsl True, SetListeningJob,
      GetProfileDirectory, ArgsBase,
      LoadCertificates ''/home/u/.config/app/tls/deskflow.pem'', SecureAccept,
      DeleteSocket, SetListeningJob]"
proof -
  note t = accept_secureAccept_raises [of handshake_breaks "Some 7" lvl StdException a]
  show "accepted (accept handshake_breaks lvl a) = Thrown StdException"
    using t(1) by (simp add: outcome_simps)
  show "armed_after (accept handshake_breaks lvl a)"
    using t(2) by simp
  have "logged (accept handshake_breaks lvl a) =
      map (\<lambda>x. (x, a)) [AcceptSocket, NewSecureSocket (Some 7), InitSsl True, SetListeningJob] @
      map (\<lambda>x. (x, True))
        (resolve_calls handshake_breaks @ SecureAccept # handler_calls StdException)"
    using t(3) by simp
  from calls_of_logged [OF this]
  show "calls (accept handshake_breaks lvl a) =
     [AcceptSocket, NewSecureSocket (Some 7), InitSsl True, SetListeningJob,
      GetProfileDirectory, ArgsBase,
      LoadCertificates ''/home/u/.config/app/tls/deskflow.pem'', SecureAccept,
      DeleteSocket, SetListeningJob]"
    by (simp add: resolve_calls_def)
qed

text \<open>
  A \<^verbatim>\<open>NULL\<close> handle from the raw accept is wrapped like any other: \<^verbatim>\<open>accept()\<close> has
  no branch for it and returns a socket.
\<close>

lemma accept_null_handle:
  "accepted (accept null_handle lvl a) =
     Returned (Some \<lparr>ss_socket = None, ss_securityLevel = lvl, ss_initSsl = Some True,
       ss_certificates = Some ''/home/u/.config/app/tls/deskflow.pem'',
       ss_secureAccept = True\<rparr>)"
  using accept_succeeds(1) [of null_handle None lvl a] by simp

subsection \<open>Re-arming\<close>

text \<open>
  Where \<^verbatim>\<open>accept()\<close> re-arms. With the socket constructed, the listener is registered
  after the call unless \<^verbatim>\<open>initSsl\<close> raised what neither handler catches; with the raw
  accept or the constructor raising, nothing in the call registers it.
\<close>

lemma armed_after_accept:
  "armed_after (accept c lvl armed) =
     (armed \<or> (constructed c lvl \<and> initSsl c True \<noteq> Some NotStdException))"
proof (cases rule: accept_paths [where c = c and lvl = lvl])
  case (raw e)
  then show ?thesis
    by (simp add: accept_raw_raises constructed_def view_defs)
next
  case (ctor h e)
  then show ?thesis
    by (simp add: accept_ctor_raises constructed_def view_defs)
next
  case (init h e)
  then show ?thesis
    by (simp add: accept_initSsl_raises constructed_def)
next
  case (load_raises h e)
  then show ?thesis
    by (simp add: accept_load_raises constructed_def)
next
  case (load_fails h)
  then show ?thesis
    by (simp add: accept_load_fails constructed_def)
next
  case (handshake_raises h e)
  then show ?thesis
    by (simp add: accept_secureAccept_raises constructed_def)
next
  case (success h)
  then show ?thesis
    by (simp add: accept_succeeds constructed_def)
qed

lemma rearms_without_socket:
  assumes "\<not> constructed c lvl"
  shows "rearms (accept c lvl armed) = 0"
proof (cases "acceptSocket c")
  case (Inl e)
  then show ?thesis
    by (simp add: accept_raw_raises)
next
  case (Inr h)
  with assms obtain e where "newSecureSocket c h lvl = Some e"
    by (auto simp: constructed_def)
  with Inr show ?thesis
    by (simp add: accept_ctor_raises)
qed

text \<open>
  C1. The claim asks that the listening job be registered, re-armed exactly once, after
  every call. When the raw accept raises \<^verbatim>\<open>XArchNetwork\<close>, \<^verbatim>\<open>acceptSocket\<close> is the only
  call \<^verbatim>\<open>accept()\<close> makes: it returns \<^verbatim>\<open>NULL\<close> without a re-arm, and a listener
  whose registration the readiness event used up stays unregistered. On the listed paths
  that get past the constructor (the successful accept, the certificate-load failure) the
  same listener is registered afterwards by one re-arm.
\<close>

theorem raw_accept_failure_not_rearmed:
  "accepted (accept network_down 0 False) = Returned None \<and>
   calls (accept network_down 0 False) = [AcceptSocket] \<and>
   \<not> armed_after (accept network_down 0 False) \<and>
   rearms (accept network_down 0 False) = 0 \<and>
   rearms (accept network_down 0 True) = 0 \<and>
   armed_after (accept home_setup 0 False) \<and> rearms (accept home_setup 0 False) = 1 \<and>
   armed_after (accept bundle_missing 0 False) \<and> rearms (accept bundle_missing 0 False) = 1"
proof -
  have "logged (accept bundle_missing 0 False) =
      map (\<lambda>x. (x, False))
        [AcceptSocket, NewSecureSocket (Some 7), InitSsl True, SetListeningJob] @
      map (\<lambda>x. (x, True)) (resolve_calls bundle_missing @ [DeleteSocket])"
    by (rule accept_load_fails(3)) simp_all
  from calls_of_logged [OF this]
  have "rearms (accept bundle_missing 0 False) = 1"
    by simp
  moreover have "armed_after (accept bundle_missing 0 False)"
    by (rule accept_load_fails(2) [of _ "Some 7"]) simp_all
  moreover have "rearms (accept home_setup 0 False) = 1"
    by (simp add: calls_def accept_home_setup)
  moreover have "armed_after (accept home_setup 0 False)"
    by (rule accept_succeeds(2) [of _ "Some 7"]) simp_all
  ultimately show ?thesis
    by (simp add: accept_network_down view_defs)
qed

text \<open>
  C2. The claim asks for exactly one re-arm when \<^verbatim>\<open>XArchNetwork\<close> is raised during the
  raw accept. \<^verbatim>\<open>accept()\<close> returns \<^verbatim>\<open>NULL\<close> and lets no exception out, but makes no
  re-arm: \<^verbatim>\<open>socket\<close> is still \<^verbatim>\<open>NULL\<close> in the handler, whose guard skips
  \<^verbatim>\<open>setListeningJob()\<close>. The same handler does re-arm, once, when the same exception
  comes from \<^verbatim>\<open>initSsl\<close>.
\<close>

theorem network_error_in_raw_accept_not_rearmed:
  "acceptSocket network_down = Inl XArchNetwork \<and>
   accepted (accept network_down 0 True) = Returned None \<and>
   calls (accept network_down 0 True) = [AcceptSocket] \<and>
   rearms (accept network_down 0 True) = 0 \<and>
   initSsl ssl_init_fails True = Some XArchNetwork \<and>
   accepted (accept ssl_init_fails 0 True) = Returned None \<and>
   rearms (accept ssl_init_fails 0 True) = 1"
proof -
  have "accepted (accept network_down 0 True) = Returned None"
    and "calls (accept network_down 0 True) = [AcceptSocket]"
    by (simp_all add: accept_network_down accepted_def)
  then show ?thesis
    by (simp add: accept_ssl_init_fails)
qed

subsection \<open>Order of the calls\<close>

text \<open>
  C3. Certificate resolution (reading the profile directory or the arguments), certificate
  loading and the start of the handshake are done exactly in the calls in which the raw
  accept, the constructor and \<^verbatim>\<open>initSsl\<close> have returned. In each such call the re-arm
  of line 57 is the call that follows \<^verbatim>\<open>initSsl\<close> and the resolution starts right after
  it; every call of that work is made with the listening job registered, whatever the
  registration was when \<^verbatim>\<open>accept()\<close> began, and the job is still registered when
  \<^verbatim>\<open>accept()\<close> ends. So in any call, whatever precedes such work includes the re-arm.
\<close>

theorem rearm_before_certificate_work:
  "(work_calls (accept c lvl armed) \<noteq> []) = reaches_certificates c lvl \<and>
   (\<forall>x \<in> set (work_calls (accept c lvl armed)). snd x) \<and>
   (reaches_certificates c lvl \<longrightarrow>
      armed_after (accept c lvl armed) \<and>
      (\<exists>h. take 5 (calls (accept c lvl armed)) =
         [AcceptSocket, NewSecureSocket h, InitSsl True, SetListeningJob, GetProfileDirectory])) \<and>
   (calls (accept c lvl armed) = pre @ e # post \<and> certificate_or_handshake_work e \<longrightarrow>
      SetListeningJob \<in> set pre)"
proof (cases "reaches_certificates c lvl")
  case False
  have none: "filter certificate_or_handshake_work (calls (accept c lvl armed)) = []"
  proof (cases rule: accept_paths [where c = c and lvl = lvl])
    case (raw x)
    then show ?thesis by (simp add: accept_raw_raises)
  next
    case (ctor h x)
    then show ?thesis by (simp add: accept_ctor_raises)
  next
    case (init h x)
    then show ?thesis by (simp add: accept_initSsl_raises)
  next
    case (load_raises h x)
    with False show ?thesis by (simp add: reaches_certificates_def constructed_def)
  next
    case (load_fails h)
    with False show ?thesis by (simp add: reaches_certificates_def constructed_def)
  next
    case (handshake_raises h x)
    with False show ?thesis by (simp add: reaches_certificates_def constructed_def)
  next
    case (success h)
    with False show ?thesis by (simp add: reaches_certificates_def constructed_def)
  qed
  then have no_work: "work_calls (accept c lvl armed) = []"
    by (rule no_work_calls)
  have "\<not> certificate_or_handshake_work e" if "calls (accept c lvl armed) = pre @ e # post"
  proof
    assume "certificate_or_handshake_work e"
    with that have "e \<in> set (filter certificate_or_handshake_work (calls (accept c lvl armed)))"
      by simp
    with none show False by simp
  qed
  with False no_work show ?thesis
    by auto
next
  case True
  then obtain h where acc: "acceptSocket c = Inr h" and ctor: "newSecureSocket c h lvl = None"
    and ini: "initSsl c True = None"
    by (auto simp: reaches_certificates_def constructed_def split: sum.splits)
  from accept_after_initSsl [OF acc ctor ini, of armed] obtain rest where
    lg: "logged (accept c lvl armed) =
      map (\<lambda>x. (x, armed)) [AcceptSocket, NewSecureSocket h, InitSsl True, SetListeningJob] @
      map (\<lambda>x. (x, True)) (resolve_calls c @ rest)"
    and after: "armed_after (accept c lvl armed)"
    by blast
  from calls_of_logged [OF lg]
  have cs: "calls (accept c lvl armed) =
      [AcceptSocket, NewSecureSocket h, InitSsl True, SetListeningJob] @ resolve_calls c @ rest" .
  have wk: "work_calls (accept c lvl armed) =
      map (\<lambda>x. (x, True)) (resolve_calls c @ filter certificate_or_handshake_work rest)"
    using work_calls_of_logged [OF lg] by simp
  have some_work: "work_calls (accept c lvl armed) \<noteq> []"
    using wk by simp
  have all_armed: "\<forall>x \<in> set (work_calls (accept c lvl armed)). snd x"
    using wk by auto
  have start: "take 5 (calls (accept c lvl armed)) =
      [AcceptSocket, NewSecureSocket h, InitSsl True, SetListeningJob, GetProfileDirectory]"
    using cs by (simp add: resolve_calls_def)
  have order: "SetListeningJob \<in> set pre"
    if "calls (accept c lvl armed) = pre @ e # post" and "certificate_or_handshake_work e"
  proof (rule before_the_work)
    show "[AcceptSocket, NewSecureSocket h, InitSsl True, SetListeningJob] @
        (resolve_calls c @ rest) = pre @ e # post"
      using that(1) cs by simp
    show "e \<notin> set [AcceptSocket, NewSecureSocket h, InitSsl True, SetListeningJob]"
      using that(2) by auto
    show "SetListeningJob \<in> set [AcceptSocket, NewSecureSocket h, InitSsl True, SetListeningJob]"
      by simp
  qed
  from True some_work all_armed after start order show ?thesis
    by blast
qed

text \<open>
  A successful accept on a listener that was not registered when the call began: the four
  calls of certificate and handshake work all find it registered.
\<close>

theorem rearm_before_certificate_work_witness:
  "reaches_certificates home_setup 0 \<and>
   work_calls (accept home_setup 0 False) =
     [(GetProfileDirectory, True), (ArgsBase, True),
      (LoadCertificates ''/home/u/.config/app/tls/deskflow.pem'', True), (SecureAccept, True)] \<and>
   armed_after (accept home_setup 0 False) \<and>
   calls (accept home_setup 0 False) =
     [AcceptSocket, NewSecureSocket (Some 7), InitSsl True, SetListeningJob] @
     GetProfileDirectory #
     [ArgsBase, LoadCertificates ''/home/u/.config/app/tls/deskflow.pem'', SecureAccept] \<and>
   certificate_or_handshake_work GetProfileDirectory \<and>
   SetListeningJob \<in> set [AcceptSocket, NewSecureSocket (Some 7), InitSsl True, SetListeningJob]"
proof -
  have reach: "reaches_certificates home_setup 0"
    by (simp add: reaches_certificates_def constructed_def)
  have wk: "work_calls (accept home_setup 0 False) =
     [(GetProfileDirectory, True), (ArgsBase, True),
      (LoadCertificates ''/home/u/.config/app/tls/deskflow.pem'', True), (SecureAccept, True)]"
    by (simp add: work_calls_def accept_home_setup)
  have tr: "calls (accept home_setup 0 False) =
     [AcceptSocket, NewSecureSocket (Some 7), InitSsl True, SetListeningJob] @
     GetProfileDirectory #
     [ArgsBase, LoadCertificates ''/home/u/.config/app/tls/deskflow.pem'', SecureAccept]"
    by (simp add: calls_def accept_home_setup)
  have work: "certificate_or_handshake_work GetProfileDirectory"
    by simp
  from reach wk tr work
    rearm_before_certificate_work [of home_setup 0 False
      "[AcceptSocket, NewSecureSocket (Some 7), InitSsl True, SetListeningJob]"
      GetProfileDirectory
      "[ArgsBase, LoadCertificates ''/home/u/.config/app/tls/deskflow.pem'', SecureAccept]"]
  show ?thesis
    by simp
qed

subsection \<open>Certificate path\<close>

lemma c_str_id: "CHR 0x00 \<notin> set s \<Longrightarrow> c_str s = s"
  by (auto simp: c_str_def takeWhile_eq_all_conv)

text \<open>
  C4. With no override set, the certificate file is the profile directory, \<^verbatim>\<open>/\<close>,
  \<^verbatim>\<open>tls\<close>, \<^verbatim>\<open>/\<close>, the application id, \<^verbatim>\<open>.pem\<close>, the directory and the id
  being read as C strings (which changes nothing unless one of them holds a NUL). For
  \<^verbatim>\<open>/home/u/.config/app\<close> and \<^verbatim>\<open>deskflow\<close> this is
  \<^verbatim>\<open>/home/u/.config/app/tls/deskflow.pem\<close>; the witness evaluates it.
\<close>

theorem default_certificate_path:
  assumes "m_tlsCertFile c = []"
  shows "certificateFilename c =
      c_str (getProfileDirectory c) @ ''/'' @ ''tls'' @ ''/'' @ c_str (kAppId c) @ ''.'' @ ''pem'' \<and>
    (CHR 0x00 \<notin> set (getProfileDirectory c) \<and> CHR 0x00 \<notin> set (kAppId c) \<longrightarrow>
      certificateFilename c = getProfileDirectory c @ ''/tls/'' @ kAppId c @ ''.pem'')"
  using assms
  by (simp add: certificateFilename_def sprintf4_def s_certificateDir_def
      s_certificateFileExt_def c_str_id)

theorem default_certificate_path_witness:
  "m_tlsCertFile home_setup = [] \<and>
   getProfileDirectory home_setup = ''/home/u/.config/app'' \<and>
   kAppId home_setup = ''deskflow'' \<and>
   certificateFilename home_setup = ''/home/u/.config/app/tls/deskflow.pem''"
proof -
  have h: "m_tlsCertFile home_setup = []"
    by simp
  from default_certificate_path [OF h] show ?thesis
    by simp
qed

text \<open>
  C5. With a non-empty override the certificate file is the override, unchanged. It is the
  only file \<^verbatim>\<open>accept()\<close> ever hands to \<^verbatim>\<open>loadCertificates\<close>, once if the call gets
  that far and never otherwise, so nothing checks the path beforehand and nothing falls back
  to the default path. If loading it fails, as for a path that does not exist,
  \<^verbatim>\<open>accept()\<close> reports the failure by returning \<^verbatim>\<open>NULL\<close>. In the witness the
  override \<^verbatim>\<open>X\<close> is missing while the bundle at the default path exists.
\<close>

theorem override_certificate_path:
  assumes "m_tlsCertFile c \<noteq> []"
  shows "certificateFilename c = m_tlsCertFile c \<and>
    loaded_paths (calls (accept c lvl armed)) =
      (if reaches_certificates c lvl then [m_tlsCertFile c] else []) \<and>
    (reaches_certificates c lvl \<and> loadCertificates c (m_tlsCertFile c) = Inr False \<longrightarrow>
      accepted (accept c lvl armed) = Returned None)"
proof -
  have path: "certificateFilename c = m_tlsCertFile c"
    using assms by (simp add: certificateFilename_def)
  show ?thesis
  proof (cases rule: accept_paths [where c = c and lvl = lvl])
    case (raw e)
    then show ?thesis
      by (simp add: path accept_raw_raises reaches_certificates_def constructed_def view_defs)
  next
    case (ctor h e)
    then show ?thesis
      by (simp add: path accept_ctor_raises reaches_certificates_def constructed_def view_defs)
  next
    case (init h e)
    then show ?thesis
      by (simp add: path accept_initSsl_raises reaches_certificates_def constructed_def)
  next
    case (load_raises h e)
    then show ?thesis
      using path by (simp add: accept_load_raises(1,4) reaches_certificates_def constructed_def)
  next
    case (load_fails h)
    then show ?thesis
      using path by (simp add: accept_load_fails(1,4) reaches_certificates_def constructed_def)
  next
    case (handshake_raises h e)
    then show ?thesis
      using path by (simp add: accept_secureAccept_raises(1,4) reaches_certificates_def constructed_def)
  next
    case (success h)
    then show ?thesis
      using path by (simp add: accept_succeeds(1,4) reaches_certificates_def constructed_def)
  qed
qed

theorem override_certificate_path_witness:
  "m_tlsCertFile override_missing = ''X'' \<and> ''X'' \<noteq> [] \<and>
   reaches_certificates override_missing 0 \<and>
   loadCertificates override_missing ''X'' = Inr False \<and>
   loadCertificates override_missing ''/home/u/.config/app/tls/deskflow.pem'' = Inr True \<and>
   certificateFilename override_missing = ''X'' \<and>
   loaded_paths (calls (accept override_missing 0 False)) = [''X''] \<and>
   accepted (accept override_missing 0 False) = Returned None"
proof -
  have h: "m_tlsCertFile override_missing \<noteq> []"
    by simp
  from override_certificate_path [OF h, of 0 False] show ?thesis
    by (simp add: reaches_certificates_def constructed_def)
qed

subsection \<open>Failures\<close>

text \<open>
  C6. If \<^verbatim>\<open>loadCertificates\<close> reports failure for an accepted connection, then
  \<^verbatim>\<open>accept()\<close> deletes the socket (its last call, made once, and no handshake is
  started), returns \<^verbatim>\<open>NULL\<close> instead of raising, and leaves the listener armed by
  its one re-arm.
\<close>

theorem certificate_failure_absorbed:
  assumes "reaches_certificates c lvl"
    and "loadCertificates c (certificateFilename c) = Inr False"
  shows "accepted (accept c lvl armed) = Returned None \<and>
    last (calls (accept c lvl armed)) = DeleteSocket \<and>
    count_list (calls (accept c lvl armed)) DeleteSocket = 1 \<and>
    SecureAccept \<notin> set (calls (accept c lvl armed)) \<and>
    armed_after (accept c lvl armed) \<and>
    rearms (accept c lvl armed) = 1"
proof -
  from assms(1) obtain h where "acceptSocket c = Inr h" and "newSecureSocket c h lvl = None"
    and "initSsl c True = None"
    by (auto simp: reaches_certificates_def constructed_def split: sum.splits)
  from accept_load_fails(1,2,4) [OF this assms(2)] show ?thesis
    by (simp add: set_resolve_calls)
qed

theorem certificate_failure_absorbed_witness:
  "reaches_certificates bundle_missing 0 \<and>
   loadCertificates bundle_missing (certificateFilename bundle_missing) = Inr False \<and>
   accepted (accept bundle_missing 0 False) = Returned None \<and>
   last (calls (accept bundle_missing 0 False)) = DeleteSocket \<and>
   armed_after (accept bundle_missing 0 False) \<and>
   rearms (accept bundle_missing 0 False) = 1"
proof -
  have h1: "reaches_certificates bundle_missing 0"
    by (simp add: reaches_certificates_def constructed_def)
  have h2: "loadCertificates bundle_missing (certificateFilename bundle_missing) = Inr False"
    by simp
  from h1 h2 certificate_failure_absorbed [OF h1 h2, of False] show ?thesis
    by simp
qed

text \<open>
  Which exceptions leave \<^verbatim>\<open>accept()\<close>: those the try block raises that are no
  \<^verbatim>\<open>XArchNetwork\<close>.
\<close>

lemma accept_propagates:
  "(accepted (accept c lvl armed) = Thrown e) = (raised c lvl = Some e \<and> e \<noteq> XArchNetwork)"
proof (cases rule: accept_paths [where c = c and lvl = lvl])
  case (raw x)
  then show ?thesis
    by (auto simp: accept_raw_raises raised_def outcome_simps accepted_def)
next
  case (ctor h x)
  then show ?thesis
    by (auto simp: accept_ctor_raises raised_def outcome_simps accepted_def)
next
  case (init h x)
  then show ?thesis
    by (auto simp: accept_initSsl_raises raised_def outcome_simps)
next
  case (load_raises h x)
  then show ?thesis
    by (auto simp: accept_load_raises raised_def outcome_simps)
next
  case (load_fails h)
  then show ?thesis
    by (simp add: accept_load_fails raised_def)
next
  case (handshake_raises h x)
  then show ?thesis
    by (auto simp: accept_secureAccept_raises raised_def outcome_simps)
next
  case (success h)
  then show ?thesis
    by (simp add: accept_succeeds raised_def)
qed

text \<open>
  C7. The claim asks that cleanup and a re-arm be attempted before an unexpected error
  leaves \<^verbatim>\<open>accept()\<close>. When the raw accept raises a \<^verbatim>\<open>std::exception\<close> that is no
  \<^verbatim>\<open>XArchNetwork\<close>, \<^verbatim>\<open>acceptSocket\<close> is the only call made: the exception leaves
  with no re-arm, \<^verbatim>\<open>socket\<close> being \<^verbatim>\<open>NULL\<close> in the handler, and the listener stays
  unregistered. The same handler does delete the socket and re-arm when the same exception
  comes from \<^verbatim>\<open>secureAccept\<close>.
\<close>

theorem unexpected_error_in_raw_accept_not_rearmed:
  "acceptSocket accept_breaks = Inl StdException \<and>
   accepted (accept accept_breaks 0 False) = Thrown StdException \<and>
   calls (accept accept_breaks 0 False) = [AcceptSocket] \<and>
   \<not> armed_after (accept accept_breaks 0 False) \<and>
   secureAccept handshake_breaks = Some StdException \<and>
   accepted (accept handshake_breaks 0 False) = Thrown StdException \<and>
   drop 8 (calls (accept handshake_breaks 0 False)) = [DeleteSocket, SetListeningJob] \<and>
   armed_after (accept handshake_breaks 0 False)"
proof -
  have "accepted (accept accept_breaks 0 False) = Thrown StdException"
    and "calls (accept accept_breaks 0 False) = [AcceptSocket]"
    and "\<not> armed_after (accept accept_breaks 0 False)"
    by (simp_all add: accept_accept_breaks accepted_def armed_after_def)
  then show ?thesis
    by (simp add: accept_handshake_breaks)
qed

section \<open>Properties of NetworkMonitor\<close>

subsection \<open>The loops as list functions\<close>

lemma append_available_filter: "append_available acc xs = acc @ filter available xs"
  by (induction xs arbitrary: acc) auto

lemma scan_interfaces_concat:
  "scan_interfaces net acc ifs =
     acc @ concat (map (\<lambda>i. filter available (allAddresses net)) (filter active ifs))"
  by (induction ifs arbitrary: acc) (auto simp: append_available_filter)

lemma getAvailableIPv4Addresses_concat:
  "getAvailableIPv4Addresses net =
     concat (map (\<lambda>i. filter available (allAddresses net)) (filter active net))"
  by (simp add: getAvailableIPv4Addresses_def scan_interfaces_concat)

lemma append_active_filter: "append_active acc xs = acc @ filter active xs"
  by (induction xs arbitrary: acc) auto

lemma getActiveNetworkInterfaces_filter: "getActiveNetworkInterfaces net = filter active net"
  by (simp add: getActiveNetworkInterfaces_def append_active_filter)

lemma find_address_member: "find_address w xs = (if w \<in> set xs then Some w else None)"
  by (induction xs) auto

lemma first_in_192_168_filter:
  "first_in_192_168 xs =
     (case filter (\<lambda>a. isInSubnet a subnet_192_168) xs of [] \<Rightarrow> None | a # rest \<Rightarrow> Some a)"
  by (induction xs) auto

lemma isNull_Null: "isNull a = (a = Null)"
  by (cases a) (simp_all add: isNull_def)

lemma some_not_contained_subset:
  "some_not_contained lastAddresses xs = (\<not> set xs \<subseteq> set lastAddresses)"
  by (induction xs) auto

lemma name_found_image: "name_found n xs = (n \<in> name ` set xs)"
  by (induction xs) auto

lemma some_name_missing_subset:
  "some_name_missing lastInterfaces xs = (\<not> name ` set xs \<subseteq> name ` set lastInterfaces)"
  by (induction xs) (auto simp: name_found_image)

lemma address_found_member: "address_found w xs = (w \<in> set xs)"
  by (induction xs) auto

lemma suggestion_member:
  assumes "addresses \<noteq> []"
  shows "suggestion selected addresses \<in> set addresses"
proof (cases "selected \<noteq> Null \<and> selected \<in> set addresses")
  case True
  then show ?thesis by (simp add: suggestion_def)
next
  case False
  show ?thesis
  proof (cases "filter (\<lambda>a. isInSubnet a subnet_192_168) addresses")
    case Nil
    with False assms show ?thesis
      by (cases addresses) (auto simp: suggestion_def)
  next
    case (Cons a rest)
    then have "a \<in> set (filter (\<lambda>a. isInSubnet a subnet_192_168) addresses)"
      by simp
    then have "a \<in> set addresses"
      by simp
    with False Cons show ?thesis
      by (auto simp: suggestion_def)
  qed
qed

subsection \<open>The concrete host, evaluated\<close>

lemma interface_flags [simp]:
  "active eth0" "active wlan0" "\<not> active lo" "\<not> active docker0"
  "flags lo AND IsUp \<noteq> 0" "flags eth0 AND IsUp \<noteq> 0" "flags wlan0 AND IsUp \<noteq> 0"
  "flags docker0 AND IsUp \<noteq> 0" "flags docker0 AND IsRunning = 0"
  by (simp_all add: active_def lo_def eth0_def wlan0_def docker0_def IsUp_def IsRunning_def
      IsLoopBack_def)

lemma interface_entries [simp]:
  "addressEntries lo = [IPv4 0x7F000001]"
  "addressEntries eth0 = [IPv4 0xC0A80105]"
  "addressEntries wlan0 = [IPv4 0x0A000007]"
  "addressEntries docker0 = [IPv4 0xAC110001]"
  "name eth0 = ''eth0''" "name wlan0 = ''wlan0''" "name docker0 = ''docker0''" "name lo = ''lo''"
  by (simp_all add: lo_def eth0_def wlan0_def docker0_def)

lemma address_tests [simp]:
  "\<not> available (IPv4 0x7F000001)"
  "available (IPv4 0xC0A80105)"
  "available (IPv4 0x0A000007)"
  "available (IPv4 0xAC110001)"
  "isInSubnet (IPv4 0xC0A80105) subnet_192_168"
  "\<not> isInSubnet (IPv4 0x0A000007) subnet_192_168"
  "\<not> isInSubnet (IPv4 0xAC110001) subnet_192_168"
  by (simp_all add: available_def LocalHost_def subnet_169_254_def subnet_192_168_def)

lemma available_lo_wlan0_eth0:
  "getAvailableIPv4Addresses [lo, wlan0, eth0] =
     [IPv4 0x0A000007, IPv4 0xC0A80105, IPv4 0x0A000007, IPv4 0xC0A80105]"
  by (simp add: getAvailableIPv4Addresses_concat allAddresses_def)

lemma available_lo:
  "getAvailableIPv4Addresses [lo] = []"
  by (simp add: getAvailableIPv4Addresses_concat)

lemma available_eth0:
  "getAvailableIPv4Addresses [eth0] = [IPv4 0xC0A80105]"
  by (simp add: getAvailableIPv4Addresses_concat allAddresses_def)

lemma available_eth0_docker0:
  "getAvailableIPv4Addresses [eth0, docker0] = [IPv4 0xC0A80105, IPv4 0xAC110001]"
  by (simp add: getAvailableIPv4Addresses_concat allAddresses_def)

lemma monitor_fields [simp]:
  "m_selectedIPAddress fresh_monitor = Null"
  "m_lastAddresses fresh_monitor = []"
  "m_lastNetworkInterfaces fresh_monitor = []"
  "m_selectedIPAddress monitor_selected_10_0_0_1 = IPv4 0x0A000001"
  "m_lastAddresses monitor_selected_10_0_0_1 = []"
  "m_lastNetworkInterfaces monitor_selected_10_0_0_1 = []"
  by (simp_all add: fresh_monitor_def monitor_selected_10_0_0_1_def)

subsection \<open>Suggested address\<close>

text \<open>
  C8. \<^verbatim>\<open>getSuggestedIPv4Address()\<close> returns the selected address when it is set and
  among the available addresses; otherwise the first available address of 192.168/16,
  else the first available address, else the null address. With a non-empty list the
  result is an element of it.
\<close>

theorem suggested_address:
  "getSuggestedIPv4Address m net =
     suggestion (m_selectedIPAddress m) (getAvailableIPv4Addresses net) \<and>
   (getAvailableIPv4Addresses net \<noteq> [] \<longrightarrow>
      getSuggestedIPv4Address m net \<in> set (getAvailableIPv4Addresses net))"
proof -
  have eq: "getSuggestedIPv4Address m net =
      suggestion (m_selectedIPAddress m) (getAvailableIPv4Addresses net)"
    by (simp add: getSuggestedIPv4Address_def suggestion_def default_suggestion_def
        find_address_member first_in_192_168_filter isNull_Null split: list.splits)
  then show ?thesis
    by (simp add: suggestion_member)
qed

text \<open>
  Two active interfaces: 192.168.1.5 is preferred over 10.0.0.7, which comes first in the
  list, unless 10.0.0.7 is the selected address; with the loopback interface alone the
  result is null.
\<close>

theorem suggested_address_witness:
  "getAvailableIPv4Addresses [lo, wlan0, eth0] \<noteq> [] \<and>
   getSuggestedIPv4Address fresh_monitor [lo, wlan0, eth0] = IPv4 0xC0A80105 \<and>
   getSuggestedIPv4Address (fresh_monitor\<lparr>m_selectedIPAddress := IPv4 0x0A000007\<rparr>)
     [lo, wlan0, eth0] = IPv4 0x0A000007 \<and>
   getSuggestedIPv4Address fresh_monitor [lo] = Null"
  using suggested_address [of fresh_monitor "[lo, wlan0, eth0]"]
    suggested_address [of "fresh_monitor\<lparr>m_selectedIPAddress := IPv4 0x0A000007\<rparr>" "[lo, wlan0, eth0]"]
    suggested_address [of fresh_monitor "[lo]"]
  by (simp add: available_lo_wlan0_eth0 available_lo suggestion_def)

subsection \<open>Available addresses\<close>

text \<open>
  What holds of every returned address: it is an IPv4 address, not 127.0.0.1, outside
  169.254/16, an address of some interface that is up; and some interface of the host is
  active.
\<close>

lemma available_addresses_filtered:
  assumes "a \<in> set (getAvailableIPv4Addresses net)"
  shows "protocol a = IPv4Protocol" and "a \<noteq> LocalHost" and "\<not> isInSubnet a subnet_169_254"
    and "\<exists>i \<in> set net. a \<in> set (addressEntries i) \<and> flags i AND IsUp \<noteq> 0"
    and "\<exists>i \<in> set net. active i"
  using assms
  by (auto simp: getAvailableIPv4Addresses_concat allAddresses_def available_def
      split: if_splits)

text \<open>
  C9 asks that every returned address come from an interface that is up, running and not
  a loopback. On a host with \<open>eth0\<close> and the idle bridge \<open>docker0\<close> the function returns
  172.17.0.1 as well, an address that only \<open>docker0\<close> carries, and \<open>docker0\<close> is not
  running: the inner loop of line 65 runs over the addresses of the whole host.
\<close>

theorem available_address_of_idle_interface:
  "getAvailableIPv4Addresses [eth0, docker0] = [IPv4 0xC0A80105, IPv4 0xAC110001] \<and>
   interfaces_with (IPv4 0xAC110001) [eth0, docker0] = [docker0] \<and>
   flags docker0 AND IsRunning = 0 \<and> \<not> active docker0"
  by (simp add: available_eth0_docker0 interfaces_with_def)

subsection \<open>Change detection\<close>

text \<open>
  What \<^verbatim>\<open>updateNetworkState()\<close> tests and stores: it returns true when the current
  address list differs from the stored one in length or holds an address the stored one
  lacks, or the same of the active interfaces by name, or the selected address is set and
  not among the current addresses; it stores the current lists exactly when it returns
  true.
\<close>

lemma updateNetworkState_flag:
  "fst (updateNetworkState m net) =
     (length (getAvailableIPv4Addresses net) \<noteq> length (m_lastAddresses m) \<or>
      \<not> set (getAvailableIPv4Addresses net) \<subseteq> set (m_lastAddresses m) \<or>
      length (getActiveNetworkInterfaces net) \<noteq> length (m_lastNetworkInterfaces m) \<or>
      \<not> name ` set (getActiveNetworkInterfaces net) \<subseteq> name ` set (m_lastNetworkInterfaces m) \<or>
      (m_selectedIPAddress m \<noteq> Null \<and>
       m_selectedIPAddress m \<notin> set (getAvailableIPv4Addresses net)))"
  by (auto simp: updateNetworkState_def Let_def addressesChanged_def interfacesChanged_def
      selectedIPChanged_def some_not_contained_subset some_name_missing_subset
      address_found_member isNull_Null)

lemma updateNetworkState_stores:
  "snd (updateNetworkState m net) =
     (if fst (updateNetworkState m net)
      then m\<lparr>m_lastAddresses := getAvailableIPv4Addresses net,
             m_lastActiveInterfaces := map humanReadableName (getActiveNetworkInterfaces net),
             m_lastNetworkInterfaces := getActiveNetworkInterfaces net\<rparr>
      else m)"
  by (simp add: updateNetworkState_def Let_def)

text \<open>
  A call repeated at once in the same environment returns true exactly when the selected
  address is set and unavailable, and leaves the monitor as the first call left it.
\<close>

lemma repeated_update:
  "fst (updateNetworkState (snd (updateNetworkState m net)) net) =
     (m_selectedIPAddress m \<noteq> Null \<and>
      m_selectedIPAddress m \<notin> set (getAvailableIPv4Addresses net))"
  by (auto simp: updateNetworkState_stores updateNetworkState_flag)

lemma repeated_update_same_state:
  "snd (updateNetworkState (snd (updateNetworkState m net)) net) =
     snd (updateNetworkState m net)"
  by (simp add: updateNetworkState_stores [of "snd (updateNetworkState m net)"])
    (simp add: updateNetworkState_stores [of m])

text \<open>
  C10. The claim asks that a call repeated at once in an unchanged environment return
  false. With 10.0.0.1 selected on a host that only has 192.168.1.5, the first call
  returns true and stores the snapshot; the repeated call changes nothing in the monitor
  and returns true again, although nothing has changed: \<^verbatim>\<open>selectedIPChanged\<close> is set
  whenever the selected address is unavailable, not when its availability changes. With
  no address selected the repeated call returns false.
\<close>

theorem repeated_update_reports_change_again:
  "fst (updateNetworkState monitor_selected_10_0_0_1 [eth0]) \<and>
   fst (updateNetworkState (snd (updateNetworkState monitor_selected_10_0_0_1 [eth0])) [eth0]) \<and>
   snd (updateNetworkState (snd (updateNetworkState monitor_selected_10_0_0_1 [eth0])) [eth0]) =
     snd (updateNetworkState monitor_selected_10_0_0_1 [eth0]) \<and>
   fst (updateNetworkState fresh_monitor [eth0]) \<and>
   \<not> fst (updateNetworkState (snd (updateNetworkState fresh_monitor [eth0])) [eth0])"
proof -
  have "fst (updateNetworkState monitor_selected_10_0_0_1 [eth0])"
    and "fst (updateNetworkState fresh_monitor [eth0])"
    by (simp_all add: updateNetworkState_flag available_eth0)
  then show ?thesis
    by (simp add: repeated_update repeated_update_same_state available_eth0)
qed

end
